theory Spec2Isabelle
  imports Main "HOL-Library.AList"
begin

section \<open>The relay server (server.mjs)\<close>

subsection \<open>Values carried by the protocol\<close>

text \<open>
  The handlers never inspect the fields of a payload beyond comparing board identifiers
  and testing \<open>myBoardId\<close> for truthiness, so a payload field is one of the primitive
  JavaScript values below. A field that is missing from the payload object reads as
  \<open>Undefined\<close>. Numbers stand for the cursor coordinates; they are only forwarded.
\<close>

datatype jsval = Undefined | Null | Str string | Num int

text \<open>JavaScript truthiness, as tested by \<open>myBoardId && ...\<close> and \<open>!myBoardId\<close>.\<close>

fun truthy :: "jsval \<Rightarrow> bool" where
  "truthy Undefined = False"
| "truthy Null = False"
| "truthy (Str s) = (s \<noteq> [])"
| "truthy (Num n) = (n \<noteq> 0)"

text \<open>
  A connection is identified by its \<open>socket.id\<close>. The channel hands out a fresh
  identifier to every connection; the model numbers the connections in the order in
  which the server accepts them. A connection lives from its connection event to its
  disconnect event; the channel's connection state recovery, which lets a client resume
  an old socket id, is outside the model.
\<close>

type_synonym sid = nat

text \<open>
  The text of \<open>socket.id\<close>. The relay never looks at it; what matters is that it is a
  non-empty string, that different connections have different ids, and that a client can
  send it as a board identifier. The channel puts every socket in a channel room named by
  its own id.
\<close>

definition socket_id :: "sid \<Rightarrow> string" where
  "socket_id s = ''sid'' @ replicate s (CHR ''+'')"

text \<open>The object \<open>{ userId, userName, color }\<close> stored per member.\<close>

record userinfo =
  userId :: jsval
  userName :: jsval
  color :: jsval

text \<open>
  A room \<open>{ canvasJSON, users }\<close>. \<open>users\<close> is a JavaScript \<open>Map\<close> from socket id to
  user info: an association list in insertion order, where \<open>Map.set\<close> on a key already
  present keeps its position (\<open>AList.update\<close>) and \<open>Map.delete\<close> is \<open>AList.delete\<close>.
\<close>

record room =
  canvasJSON :: jsval
  users :: "(sid \<times> userinfo) list"

text \<open>Events the relay emits; a delivery is a pair of the receiving connection and the event.\<close>

datatype outbound =
    RoomState jsval "userinfo list"
  | UsersUpdate "userinfo list"
  | UserLeft jsval
  | CanvasSyncOut jsval
  | CursorMoveOut jsval jsval jsval
  | PingAck

type_synonym delivery = "sid \<times> outbound"

text \<open>
  The state of the relay process:
  \<^item> \<open>rooms\<close>: the module-level \<open>rooms\<close> map from board id to room;
  \<^item> \<open>sockets\<close>: the live connections, each with the variable \<open>myBoardId\<close> of its
    connection closure;
  \<^item> \<open>joined\<close>: the channel's own room membership: a socket enters the room named by
    its own id when it connects, \<open>socket.join\<close> and \<open>socket.leave\<close> change it, and it is
    cleared for a socket when it disconnects;
  \<^item> \<open>next_sid\<close>: the identifier the next connection gets.
\<close>

record relay =
  rooms :: "(jsval \<times> room) list"
  sockets :: "(sid \<times> jsval) list"
  joined :: "(jsval \<times> sid) list"
  next_sid :: sid

text \<open>The name of the channel room that a socket is put in when it connects.\<close>

definition own_room :: "sid \<Rightarrow> jsval" where
  "own_room s = Str (socket_id s)"

definition init :: relay where
  "init = \<lparr>rooms = [], sockets = [], joined = [], next_sid = 0\<rparr>"

subsection \<open>The channel: join, leave, emit\<close>

definition socket_join :: "sid \<Rightarrow> jsval \<Rightarrow> relay \<Rightarrow> relay" where
  "socket_join s b st =
     (if (b, s) \<in> set (joined st) then st else st\<lparr>joined := joined st @ [(b, s)]\<rparr>)"

definition socket_leave :: "sid \<Rightarrow> jsval \<Rightarrow> relay \<Rightarrow> relay" where
  "socket_leave s b st = st\<lparr>joined := filter (\<lambda>p. p \<noteq> (b, s)) (joined st)\<rparr>"

text \<open>The sockets currently in the channel room \<open>b\<close>.\<close>

definition in_room :: "jsval \<Rightarrow> relay \<Rightarrow> sid list" where
  "in_room b st = map snd (filter (\<lambda>p. fst p = b) (joined st))"

text \<open>\<open>io.to(b).emit(e)\<close>: to every socket in the channel room.\<close>

definition io_to_emit :: "jsval \<Rightarrow> outbound \<Rightarrow> relay \<Rightarrow> delivery list" where
  "io_to_emit b e st = map (\<lambda>s. (s, e)) (in_room b st)"

text \<open>
  \<open>socket.to(b).emit(e)\<close>: to every socket in the channel room \<open>b\<close>, except the sockets
  of the channel room named by the sender's id. That room holds the sender alone, unless
  the sender has left it or another socket has joined it.
\<close>

definition socket_to_emit :: "sid \<Rightarrow> jsval \<Rightarrow> outbound \<Rightarrow> relay \<Rightarrow> delivery list" where
  "socket_to_emit s b e st =
     map (\<lambda>r. (r, e)) (filter (\<lambda>r. r \<notin> set (in_room (own_room s) st)) (in_room b st))"

subsection \<open>Module-level helpers\<close>

text \<open>\<open>getRoom\<close>: get or create; returns the registry and the room.\<close>

definition getRoom :: "jsval \<Rightarrow> relay \<Rightarrow> relay \<times> room" where
  "getRoom boardId st =
     (case map_of (rooms st) boardId of
        None \<Rightarrow>
          (let r = \<lparr>canvasJSON = Null, users = []\<rparr>
           in (st\<lparr>rooms := AList.update boardId r (rooms st)\<rparr>, r))
      | Some r \<Rightarrow> (st, r))"

definition broadcastUsers :: "jsval \<Rightarrow> relay \<Rightarrow> delivery list" where
  "broadcastUsers boardId st =
     (case map_of (rooms st) boardId of
        None \<Rightarrow> []
      | Some r \<Rightarrow> io_to_emit boardId (UsersUpdate (map snd (users r))) st)"

definition cleanEmptyRoom :: "jsval \<Rightarrow> relay \<Rightarrow> relay" where
  "cleanEmptyRoom boardId st =
     (case map_of (rooms st) boardId of
        None \<Rightarrow> st
      | Some r \<Rightarrow>
          if length (users r) = 0 then st\<lparr>rooms := AList.delete boardId (rooms st)\<rparr> else st)"

text \<open>Writing a changed room object back under its key (the source mutates it in place).\<close>

definition put_room :: "jsval \<Rightarrow> room \<Rightarrow> relay \<Rightarrow> relay" where
  "put_room boardId r st = st\<lparr>rooms := AList.update boardId r (rooms st)\<rparr>"

subsection \<open>The handlers of one connection\<close>

text \<open>
  Destructuring the parameter \<open>({ boardId, ... })\<close> of a handler throws a \<open>TypeError\<close>
  when the event carries no payload (\<open>undefined\<close> or \<open>null\<close>); nothing catches it.
\<close>

datatype error = TypeError

datatype inbound =
    JoinRoom "(jsval \<times> userinfo) option"
  | CanvasSync "(jsval \<times> jsval) option"
  | CursorMove "(jsval \<times> jsval \<times> jsval \<times> jsval) option"
  | Ping bool
  | Disconnect

text \<open>
  The first block of the join-room handler: leave the previous room. The caller has
  tested \<open>myBoardId && myBoardId !== boardId\<close>.
\<close>

definition leave_first :: "sid \<Rightarrow> jsval \<Rightarrow> relay \<Rightarrow> relay \<times> delivery list" where
  "leave_first s myBoardId st =
     (let st1 = socket_leave s myBoardId st
      in case map_of (rooms st1) myBoardId of
           None \<Rightarrow> (st1, [])
         | Some prevRoom \<Rightarrow>
             (let st2 = put_room myBoardId
                          (prevRoom\<lparr>users := AList.delete s (users prevRoom)\<rparr>) st1
              in (cleanEmptyRoom myBoardId st2, broadcastUsers myBoardId st2)))"

definition join_room ::
  "sid \<Rightarrow> jsval \<Rightarrow> (jsval \<times> userinfo) option \<Rightarrow> relay \<Rightarrow> error + relay \<times> delivery list" where
  "join_room s myBoardId payload st =
     (case payload of
        None \<Rightarrow> Inl TypeError
      | Some (boardId, u) \<Rightarrow>
          (let (st1, out1) =
                 (if truthy myBoardId \<and> myBoardId \<noteq> boardId
                  then leave_first s myBoardId st else (st, []));
               st2 = st1\<lparr>sockets := AList.update s boardId (sockets st1)\<rparr>;
               st3 = socket_join s boardId st2;
               (st4, r) = getRoom boardId st3;
               r' = r\<lparr>users := AList.update s u (users r)\<rparr>;
               st5 = put_room boardId r' st4;
               otherUsers = map snd (filter (\<lambda>(sid', _). sid' \<noteq> s) (users r'))
           in Inr (st5, out1 @ [(s, RoomState (canvasJSON r') otherUsers)]
                          @ broadcastUsers boardId st5)))"

definition canvas_sync ::
  "sid \<Rightarrow> (jsval \<times> jsval) option \<Rightarrow> relay \<Rightarrow> error + relay \<times> delivery list" where
  "canvas_sync s payload st =
     (case payload of
        None \<Rightarrow> Inl TypeError
      | Some (boardId, cj) \<Rightarrow>
          (let (st1, r) = getRoom boardId st;
               st2 = put_room boardId (r\<lparr>canvasJSON := cj\<rparr>) st1
           in Inr (st2, socket_to_emit s boardId (CanvasSyncOut cj) st2)))"

definition cursor_move ::
  "sid \<Rightarrow> (jsval \<times> jsval \<times> jsval \<times> jsval) option \<Rightarrow> relay \<Rightarrow> error + relay \<times> delivery list" where
  "cursor_move s payload st =
     (case payload of
        None \<Rightarrow> Inl TypeError
      | Some (boardId, uid, x, y) \<Rightarrow>
          Inr (st, socket_to_emit s boardId (CursorMoveOut uid x y) st))"

definition ping :: "sid \<Rightarrow> bool \<Rightarrow> relay \<Rightarrow> error + relay \<times> delivery list" where
  "ping s is_function st = Inr (st, if is_function then [(s, PingAck)] else [])"

text \<open>
  The disconnect handler. The channel has removed the socket from every channel room
  before the handler runs, so \<open>io.to(myBoardId)\<close> reaches the remaining sockets only.
\<close>

definition disconnect :: "sid \<Rightarrow> jsval \<Rightarrow> relay \<Rightarrow> relay \<times> delivery list" where
  "disconnect s myBoardId st =
     (if \<not> truthy myBoardId then (st, [])
      else case map_of (rooms st) myBoardId of
             None \<Rightarrow> (st, [])
           | Some r \<Rightarrow>
               (let user = map_of (users r) s;
                    st1 = put_room myBoardId (r\<lparr>users := AList.delete s (users r)\<rparr>) st;
                    out = (case user of
                             None \<Rightarrow> []
                           | Some u \<Rightarrow> io_to_emit myBoardId (UserLeft (userId u)) st1
                                        @ broadcastUsers myBoardId st1)
                in (cleanEmptyRoom myBoardId st1, out)))"

subsection \<open>The relay as a transition system\<close>

datatype event = Connect | Inbound sid inbound

definition connected :: "relay \<Rightarrow> sid \<Rightarrow> bool" where
  "connected st s = (map_of (sockets st) s \<noteq> None)"

text \<open>
  One event. A connection starts with \<open>myBoardId = null\<close> and in the channel room named by
  its own id. An inbound event of a socket that is not connected has no handler and is not
  processed. On a disconnect the channel drops the socket and its room memberships, then
  the handler runs.
\<close>

definition handle :: "relay \<Rightarrow> event \<Rightarrow> error + relay \<times> delivery list" where
  "handle st ev =
     (case ev of
        Connect \<Rightarrow>
          Inr (st\<lparr>sockets := AList.update (next_sid st) Null (sockets st),
                  joined := joined st @ [(own_room (next_sid st), next_sid st)],
                  next_sid := Suc (next_sid st)\<rparr>, [])
      | Inbound s msg \<Rightarrow>
          (case map_of (sockets st) s of
             None \<Rightarrow> Inr (st, [])
           | Some myBoardId \<Rightarrow>
               (case msg of
                  JoinRoom payload \<Rightarrow> join_room s myBoardId payload st
                | CanvasSync payload \<Rightarrow> canvas_sync s payload st
                | CursorMove payload \<Rightarrow> cursor_move s payload st
                | Ping f \<Rightarrow> ping s f st
                | Disconnect \<Rightarrow>
                    Inr (disconnect s myBoardId
                           (st\<lparr>sockets := AList.delete s (sockets st),
                               joined := filter (\<lambda>p. snd p \<noteq> s) (joined st)\<rparr>)))))"

text \<open>A run stops at the first uncaught error, as the process does.\<close>

fun run :: "relay \<Rightarrow> event list \<Rightarrow> error + relay \<times> delivery list" where
  "run st [] = Inr (st, [])"
| "run st (ev # evs) =
     (case handle st ev of
        Inl e \<Rightarrow> Inl e
      | Inr (st', out) \<Rightarrow>
          (case run st' evs of
             Inl e \<Rightarrow> Inl e
           | Inr (st'', out') \<Rightarrow> Inr (st'', out @ out')))"

text \<open>The members map and the snapshot of a board; a board without a room has neither.\<close>

definition members :: "relay \<Rightarrow> jsval \<Rightarrow> (sid \<times> userinfo) list" where
  "members st b = (case map_of (rooms st) b of None \<Rightarrow> [] | Some r \<Rightarrow> users r)"

definition snapshot :: "relay \<Rightarrow> jsval \<Rightarrow> jsval" where
  "snapshot st b = (case map_of (rooms st) b of None \<Rightarrow> Null | Some r \<Rightarrow> canvasJSON r)"

definition active :: "relay \<Rightarrow> jsval \<Rightarrow> bool" where
  "active st b = (map_of (rooms st) b \<noteq> None)"

text \<open>
  The state after the test on \<open>myBoardId\<close> at the head of the join-room handler, and the
  state just before the member entry of the joiner is written.
\<close>

definition after_leave :: "sid \<Rightarrow> jsval \<Rightarrow> jsval \<Rightarrow> relay \<Rightarrow> relay" where
  "after_leave s mb b st = (if truthy mb \<and> mb \<noteq> b then fst (leave_first s mb st) else st)"

definition join_room_pre :: "sid \<Rightarrow> jsval \<Rightarrow> jsval \<Rightarrow> relay \<Rightarrow> relay" where
  "join_room_pre s mb b st =
     fst (getRoom b (socket_join s b
       ((after_leave s mb b st)\<lparr>sockets := AList.update s b (sockets (after_leave s mb b st))\<rparr>)))"

text \<open>
  What holds between the registry, the connection table and the channel rooms after
  every run from the initial state: a socket in a channel room is a live connection, and
  the room is the one named by its own id or it is a member of the room of that name; a
  live connection that is a member of a room is in its channel room; identifiers of
  connections and of members are below \<open>next_sid\<close>; and a live member of a room with a
  truthy name has that name as its \<open>myBoardId\<close>.
\<close>

definition consistent :: "relay \<Rightarrow> bool" where
  "consistent st \<longleftrightarrow>
     (\<forall>b s. (b, s) \<in> set (joined st) \<longrightarrow>
            connected st s \<and> (s \<in> fst ` set (members st b) \<or> b = own_room s)) \<and>
     (\<forall>b s. s \<in> fst ` set (members st b) \<and> connected st s \<longrightarrow> (b, s) \<in> set (joined st)) \<and>
     (\<forall>s. connected st s \<longrightarrow> s < next_sid st) \<and>
     (\<forall>b s. s \<in> fst ` set (members st b) \<longrightarrow> s < next_sid st) \<and>
     (\<forall>b s. s \<in> fst ` set (members st b) \<and> connected st s \<and> truthy b \<longrightarrow>
            map_of (sockets st) s = Some b)"

subsection \<open>Observing a run\<close>

text \<open>The payload of a canvas-sync event that the relay processes in state \<open>st\<close>.\<close>

definition sync_payload :: "relay \<Rightarrow> event \<Rightarrow> (jsval \<times> jsval) option" where
  "sync_payload st ev =
     (case ev of
        Inbound s (CanvasSync (Some p)) \<Rightarrow> if connected st s then Some p else None
      | _ \<Rightarrow> None)"

text \<open>
  The payload of the most recent canvas-sync event on board \<open>B\<close> since the room of \<open>B\<close>
  was created: \<open>None\<close> when the board has no room or its room has seen no canvas-sync.
  The function follows a run from \<open>st\<close>, where the value is \<open>l\<close>.
\<close>

fun latest_sync :: "jsval \<Rightarrow> relay \<Rightarrow> event list \<Rightarrow> jsval option \<Rightarrow> jsval option" where
  "latest_sync B st [] l = l"
| "latest_sync B st (ev # evs) l =
     (case handle st ev of
        Inl e \<Rightarrow> l
      | Inr (st', out) \<Rightarrow>
          latest_sync B st' evs
            (if \<not> active st' B then None
             else case sync_payload st ev of
                    None \<Rightarrow> l
                  | Some (b, cj) \<Rightarrow> if b = B then Some cj else l))"

text \<open>The \<open>canvasJSON\<close> fields of the room-state events delivered to connection \<open>j\<close>.\<close>

fun room_state_json :: "outbound \<Rightarrow> jsval option" where
  "room_state_json (RoomState cj us) = Some cj"
| "room_state_json _ = None"

definition received_snapshots :: "sid \<Rightarrow> delivery list \<Rightarrow> jsval list" where
  "received_snapshots j out =
     List.map_filter (\<lambda>(r, e). if r = j then room_state_json e else None) out"




text \<open>An event is a join-room or a canvas-sync whose payload names board \<open>B\<close>.\<close>

fun names_board :: "jsval \<Rightarrow> event \<Rightarrow> bool" where
  "names_board B (Inbound s (JoinRoom (Some (b, u)))) = (b = B)"
| "names_board B (Inbound s (CanvasSync (Some (b, cj)))) = (b = B)"
| "names_board B _ = False"

subsection \<open>A session used in the examples\<close>

definition alice :: userinfo where
  "alice = \<lparr>userId = Str ''u1'', userName = Str ''Alex'', color = Str ''#F59E0B''\<rparr>"

definition bob :: userinfo where
  "bob = \<lparr>userId = Str ''u2'', userName = Str ''Blake'', color = Str ''#10B981''\<rparr>"

definition one_connected :: relay where
  "one_connected =
     \<lparr>rooms = [], sockets = [(0, Null)], joined = [(own_room 0, 0)], next_sid = 1\<rparr>"

definition alice_alone :: relay where
  "alice_alone =
     \<lparr>rooms = [(Str ''abc123'', \<lparr>canvasJSON = Str ''{shapes}'', users = [(0, alice)]\<rparr>)],
      sockets = [(0, Str ''abc123'')],
      joined = [(own_room 0, 0), (Str ''abc123'', 0)],
      next_sid = 1\<rparr>"

definition join_and_sync :: "event list" where
  "join_and_sync =
     [Connect, Inbound 0 (JoinRoom (Some (Str ''abc123'', alice))),
      Inbound 0 (CanvasSync (Some (Str ''abc123'', Str ''{shapes}'')))]"


definition two_joined :: relay where
  "two_joined =
     \<lparr>rooms = [(Str ''abc123'', \<lparr>canvasJSON = Null, users = [(0, alice), (1, bob)]\<rparr>)],
      sockets = [(0, Str ''abc123''), (1, Str ''abc123'')],
      joined = [(own_room 0, 0), (Str ''abc123'', 0), (own_room 1, 1), (Str ''abc123'', 1)],
      next_sid = 2\<rparr>"

definition two_syncs :: "event list" where
  "two_syncs =
     [Connect, Inbound 0 (JoinRoom (Some (Str ''abc123'', alice))),
      Inbound 0 (CanvasSync (Some (Str ''abc123'', Str ''{v1}''))),
      Inbound 0 (CanvasSync (Some (Str ''abc123'', Str ''{v2}''))),
      Connect]"

definition synced_twice :: relay where
  "synced_twice =
     \<lparr>rooms = [(Str ''abc123'', \<lparr>canvasJSON = Str ''{v2}'', users = [(0, alice)]\<rparr>)],
      sockets = [(0, Str ''abc123''), (1, Null)],
      joined = [(own_room 0, 0), (Str ''abc123'', 0), (own_room 1, 1)],
      next_sid = 2\<rparr>"



definition emptied :: relay where
  "emptied = \<lparr>rooms = [], sockets = [], joined = [], next_sid = 1\<rparr>"

definition resynced :: relay where
  "resynced =
     \<lparr>rooms = [(Str ''abc123'', \<lparr>canvasJSON = Str ''{v2}'', users = [(1, bob)]\<rparr>)],
      sockets = [(1, Str ''abc123'')],
      joined = [(own_room 1, 1), (Str ''abc123'', 1)],
      next_sid = 2\<rparr>"

definition second_connected :: relay where
  "second_connected =
     \<lparr>rooms = [], sockets = [(1, Null)], joined = [(own_room 1, 1)], next_sid = 2\<rparr>"

text \<open>
  Two sessions in which a client sends the id of a socket as board identifier: connection
  0 joins the board named by its own id and then switches to board \<open>abc123\<close>, which takes
  it out of the channel room named by its id; and connection 1 joins the board named by the
  id of connection 0.
\<close>

definition left_own_room :: "event list" where
  "left_own_room =
     [Connect, Inbound 0 (JoinRoom (Some (own_room 0, alice))),
      Inbound 0 (JoinRoom (Some (Str ''abc123'', alice)))]"

definition alice_unshielded :: relay where
  "alice_unshielded =
     \<lparr>rooms = [(Str ''abc123'', \<lparr>canvasJSON = Null, users = [(0, alice)]\<rparr>)],
      sockets = [(0, Str ''abc123'')],
      joined = [(Str ''abc123'', 0)],
      next_sid = 1\<rparr>"

definition joined_foreign_id :: "event list" where
  "joined_foreign_id = [Connect, Connect, Inbound 1 (JoinRoom (Some (own_room 0, bob)))]"

definition bob_in_alices_room :: relay where
  "bob_in_alices_room =
     \<lparr>rooms = [(own_room 0, \<lparr>canvasJSON = Null, users = [(1, bob)]\<rparr>)],
      sockets = [(0, Null), (1, own_room 0)],
      joined = [(own_room 0, 0), (own_room 1, 1), (own_room 0, 1)],
      next_sid = 2\<rparr>"

section \<open>The board store (boardStore.ts)\<close>

datatype tool = Select | Pen | Rectangle | Circle | Line | Text | Eraser | Image

text \<open>
  A remote peer (\<open>User\<close> in the types module). The cursor coordinates are only stored and
  shown, never computed with; they are integers here.
\<close>

record user =
  user_id :: string
  user_name :: string
  user_color :: string
  user_cursor :: "int \<times> int"

record boardStore =
  tool :: tool
  strokeColor :: string
  strokeWidth :: int
  fillColor :: string
  zoom :: int
  showGrid :: bool
  boardTitle :: string
  activeUsers :: "user list"
  history :: "string list"
  historyIndex :: int

definition initial_store :: boardStore where
  "initial_store =
     \<lparr>tool = Select, strokeColor = ''#FFFFFF'', strokeWidth = 2, fillColor = ''transparent'',
      zoom = 100, showGrid = False, boardTitle = ''Untitled Board'', activeUsers = [],
      history = [], historyIndex = - 1\<rparr>"

definition setActiveUsers :: "user list \<Rightarrow> boardStore \<Rightarrow> boardStore" where
  "setActiveUsers us s = s\<lparr>activeUsers := us\<rparr>"

definition addUser :: "user \<Rightarrow> boardStore \<Rightarrow> boardStore" where
  "addUser usr s =
     s\<lparr>activeUsers := filter (\<lambda>u. user_id u \<noteq> user_id usr) (activeUsers s) @ [usr]\<rparr>"

definition removeUser :: "string \<Rightarrow> boardStore \<Rightarrow> boardStore" where
  "removeUser uid s = s\<lparr>activeUsers := filter (\<lambda>u. user_id u \<noteq> uid) (activeUsers s)\<rparr>"

definition updateUserCursor :: "string \<Rightarrow> int \<Rightarrow> int \<Rightarrow> boardStore \<Rightarrow> boardStore" where
  "updateUserCursor uid x y s =
     s\<lparr>activeUsers :=
         map (\<lambda>u. if user_id u = uid then u\<lparr>user_cursor := (x, y)\<rparr> else u) (activeUsers s)\<rparr>"

text \<open>A sequence of calls of the three user operations, applied to the initial store.\<close>

datatype store_op = AddUser user | RemoveUser string | UpdateUserCursor string int int

fun apply_op :: "store_op \<Rightarrow> boardStore \<Rightarrow> boardStore" where
  "apply_op (AddUser usr) s = addUser usr s"
| "apply_op (RemoveUser uid) s = removeUser uid s"
| "apply_op (UpdateUserCursor uid x y) s = updateUserCursor uid x y s"

definition run_ops :: "store_op list \<Rightarrow> boardStore" where
  "run_ops ops = fold apply_op ops initial_store"

section \<open>The debounced canvas-sync of the client (Canvas.tsx)\<close>



















section \<open>Properties of the relay\<close>

subsection \<open>Effect of the helpers on the registry and the channel rooms\<close>

lemma joined_put_room [simp]: "joined (put_room b r st) = joined st"
  and sockets_put_room [simp]: "sockets (put_room b r st) = sockets st"
  and next_sid_put_room [simp]: "next_sid (put_room b r st) = next_sid st"
  by (simp_all add: put_room_def)

lemma joined_cleanEmptyRoom [simp]: "joined (cleanEmptyRoom b st) = joined st"
  and sockets_cleanEmptyRoom [simp]: "sockets (cleanEmptyRoom b st) = sockets st"
  and next_sid_cleanEmptyRoom [simp]: "next_sid (cleanEmptyRoom b st) = next_sid st"
  by (simp_all add: cleanEmptyRoom_def split: option.splits)

lemma joined_getRoom [simp]: "joined (fst (getRoom b st)) = joined st"
  and sockets_getRoom [simp]: "sockets (fst (getRoom b st)) = sockets st"
  and next_sid_getRoom [simp]: "next_sid (fst (getRoom b st)) = next_sid st"
  by (simp_all add: getRoom_def Let_def split: option.splits)

lemma map_of_put_room:
  "map_of (rooms (put_room b r st)) b' = (if b' = b then Some r else map_of (rooms st) b')"
  by (simp add: put_room_def update_conv')

lemma map_of_cleanEmptyRoom:
  "map_of (rooms (cleanEmptyRoom b st)) b' =
     (if b' = b \<and> members st b = [] then None else map_of (rooms st) b')"
  by (auto simp: cleanEmptyRoom_def members_def delete_conv' split: option.splits)

lemma map_of_getRoom:
  "map_of (rooms (fst (getRoom b st))) b' =
     (if b' = b \<and> map_of (rooms st) b = None then Some \<lparr>canvasJSON = Null, users = []\<rparr>
      else map_of (rooms st) b')"
  by (auto simp: getRoom_def Let_def update_conv' split: option.splits)

lemma snd_getRoom:
  "snd (getRoom b st) = (case map_of (rooms st) b of None \<Rightarrow> \<lparr>canvasJSON = Null, users = []\<rparr> | Some r \<Rightarrow> r)"
  by (simp add: getRoom_def Let_def split: option.splits)

lemma users_getRoom [simp]: "users (snd (getRoom b st)) = members st b"
  and canvasJSON_getRoom [simp]: "canvasJSON (snd (getRoom b st)) = snapshot st b"
  by (simp_all add: snd_getRoom members_def snapshot_def split: option.splits)

lemma members_put_room:
  "members (put_room b r st) b' = (if b' = b then users r else members st b')"
  by (simp add: members_def map_of_put_room)

lemma members_cleanEmptyRoom [simp]: "members (cleanEmptyRoom b st) = members st"
  by (rule ext) (auto simp: members_def map_of_cleanEmptyRoom split: option.splits)

lemma members_getRoom [simp]: "members (fst (getRoom b st)) = members st"
  by (rule ext) (auto simp: members_def map_of_getRoom split: option.splits)

lemma snapshot_put_room:
  "snapshot (put_room b r st) b' = (if b' = b then canvasJSON r else snapshot st b')"
  by (simp add: snapshot_def map_of_put_room)

lemma snapshot_getRoom [simp]: "snapshot (fst (getRoom b st)) = snapshot st"
  by (rule ext) (auto simp: snapshot_def map_of_getRoom split: option.splits)

lemma active_put_room: "active (put_room b r st) b' = (b' = b \<or> active st b')"
  by (simp add: active_def map_of_put_room)

lemma active_getRoom: "active (fst (getRoom b st)) b' = (b' = b \<or> active st b')"
  by (auto simp: active_def map_of_getRoom)

lemma active_cleanEmptyRoom:
  "active (cleanEmptyRoom b st) b' = (active st b' \<and> \<not> (b' = b \<and> members st b = []))"
  by (auto simp: active_def map_of_cleanEmptyRoom)

lemma in_room_iff: "s \<in> set (in_room b st) \<longleftrightarrow> (b, s) \<in> set (joined st)"
  by (force simp: in_room_def)

lemma in_room_socket_leave:
  "in_room b (socket_leave s mb st) = (if b = mb then filter (\<lambda>r. r \<noteq> s) (in_room b st) else in_room b st)"
  by (induction "joined st" arbitrary: st) (auto simp: in_room_def socket_leave_def filter_map comp_def intro!: filter_cong arg_cong[where f="map snd"])

lemma leave_first_state:
  "members (fst (leave_first s mb st)) = (members st)(mb := AList.delete s (members st mb))"
  "joined (fst (leave_first s mb st)) = filter (\<lambda>p. p \<noteq> (mb, s)) (joined st)"
  "sockets (fst (leave_first s mb st)) = sockets st"
  "next_sid (fst (leave_first s mb st)) = next_sid st"
     apply (rule ext)
     apply (auto simp: leave_first_def Let_def socket_leave_def members_put_room split: option.splits)
   apply (auto simp: members_def)
  done

lemma leave_first_snapshot:
  "b \<noteq> mb \<Longrightarrow> snapshot (fst (leave_first s mb st)) b = snapshot st b"
  "b \<noteq> mb \<Longrightarrow> active (fst (leave_first s mb st)) b = active st b"
  by (auto simp: leave_first_def Let_def socket_leave_def snapshot_def active_def map_of_put_room
         map_of_cleanEmptyRoom split: option.splits)

lemma in_room_put_room [simp]: "in_room b (put_room b' r st) = in_room b st"
  and in_room_cleanEmptyRoom [simp]: "in_room b (cleanEmptyRoom b' st) = in_room b st"
  and in_room_getRoom [simp]: "in_room b (fst (getRoom b' st)) = in_room b st"
  by (simp_all add: in_room_def)

lemma leave_first_out:
  "snd (leave_first s mb st) =
     (if active st mb
      then map (\<lambda>m. (m, UsersUpdate (map snd (AList.delete s (members st mb)))))
             (filter (\<lambda>r. r \<noteq> s) (in_room mb st))
      else [])"
proof -
  have r: "rooms (socket_leave s mb st) = rooms st"
    by (simp add: socket_leave_def)
  show ?thesis
    by (simp add: leave_first_def Let_def r active_def members_def broadcastUsers_def
        io_to_emit_def map_of_put_room in_room_socket_leave split: option.splits)
qed

lemma in_room_socket_join:
  "in_room b (socket_join s b' st) =
     (if b = b' \<and> (b', s) \<notin> set (joined st) then in_room b st @ [s] else in_room b st)"
  by (auto simp: in_room_def socket_join_def)

lemma join_room_None [simp]: "join_room s mb None st = Inl TypeError"
  by (simp add: join_room_def)

lemma join_room_unfold:
  assumes "join_room s mb (Some (b, u)) st = Inr (st', out)"
  shows "st' = put_room b \<lparr>canvasJSON = snapshot st b, users = AList.update s u (members st b)\<rparr>
                 (join_room_pre s mb b st)
       \<and> out = (if truthy mb \<and> mb \<noteq> b then snd (leave_first s mb st) else [])
             @ [(s, RoomState (snapshot st b)
                    (map snd (filter (\<lambda>(sid', _). sid' \<noteq> s) (AList.update s u (members st b)))))]
             @ broadcastUsers b st'"
proof -
  define st1 where "st1 = after_leave s mb b st"
  define st3 where "st3 = socket_join s b (st1\<lparr>sockets := AList.update s b (sockets st1)\<rparr>)"
  define r' where "r' = (snd (getRoom b st3))\<lparr>users := AList.update s u (users (snd (getRoom b st3)))\<rparr>"
  have st': "st' = put_room b r' (fst (getRoom b st3))"
    and out: "out = (if truthy mb \<and> mb \<noteq> b then snd (leave_first s mb st) else [])
        @ [(s, RoomState (canvasJSON r') (map snd (filter (\<lambda>(sid', _). sid' \<noteq> s) (users r'))))]
        @ broadcastUsers b st'"
    using assms
    by (auto simp: join_room_def Let_def case_prod_beta st1_def st3_def r'_def after_leave_def)
  have m1: "members st1 b = members st b"
    by (simp add: st1_def after_leave_def leave_first_state)
  have m3: "members st3 = members st1"
    by (rule ext) (simp add: st3_def members_def socket_join_def)
  have "snapshot st3 = snapshot st1"
    by (rule ext) (simp add: st3_def snapshot_def socket_join_def)
  moreover have "snapshot st1 b = snapshot st b"
    using leave_first_snapshot(1)[of b mb s st] by (auto simp: st1_def after_leave_def)
  ultimately have s3: "snapshot st3 b = snapshot st b"
    by simp
  have r': "r' = \<lparr>canvasJSON = snapshot st b, users = AList.update s u (members st b)\<rparr>"
    by (simp add: r'_def m3 m1 s3)
  show ?thesis
    unfolding out unfolding st' r' join_room_pre_def st3_def st1_def by simp
qed

lemma members_socket_join [simp]: "members (socket_join s b st) = members st"
  by (rule ext) (simp add: members_def socket_join_def)

lemma members_sockets_update [simp]: "members (st\<lparr>sockets := x\<rparr>) = members st"
  by (rule ext) (simp add: members_def)

lemma members_after_leave:
  "members (after_leave s mb b st) b' =
     (if truthy mb \<and> mb \<noteq> b \<and> b' = mb then AList.delete s (members st mb) else members st b')"
  by (simp add: after_leave_def leave_first_state)

lemma joined_after_leave:
  "joined (after_leave s mb b st) =
     (if truthy mb \<and> mb \<noteq> b then filter (\<lambda>p. p \<noteq> (mb, s)) (joined st) else joined st)"
  by (simp add: after_leave_def leave_first_state)

lemma sockets_after_leave [simp]: "sockets (after_leave s mb b st) = sockets st"
  and next_sid_after_leave [simp]: "next_sid (after_leave s mb b st) = next_sid st"
  by (simp_all add: after_leave_def leave_first_state)

lemma join_members:
  assumes "join_room s mb (Some (b, u)) st = Inr (st', out)"
  shows "members st' b' =
           (if b' = b then AList.update s u (members st b)
            else if truthy mb \<and> b' = mb then AList.delete s (members st mb)
            else members st b')"
  using join_room_unfold[OF assms]
  by (simp add: members_put_room join_room_pre_def members_after_leave)

lemma join_joined:
  assumes "join_room s mb (Some (b, u)) st = Inr (st', out)"
  shows "joined st' =
           (let j = (if truthy mb \<and> mb \<noteq> b then filter (\<lambda>p. p \<noteq> (mb, s)) (joined st)
                     else joined st)
            in if (b, s) \<in> set j then j else j @ [(b, s)])"
  using join_room_unfold[OF assms]
  by (simp add: join_room_pre_def socket_join_def joined_after_leave Let_def)

lemma join_sockets:
  assumes "join_room s mb (Some (b, u)) st = Inr (st', out)"
  shows "sockets st' = AList.update s b (sockets st)"
  using join_room_unfold[OF assms]
  by (simp add: join_room_pre_def socket_join_def)

lemma join_next_sid:
  assumes "join_room s mb (Some (b, u)) st = Inr (st', out)"
  shows "next_sid st' = next_sid st"
  using join_room_unfold[OF assms]
  by (simp add: join_room_pre_def socket_join_def)

lemma join_snapshot:
  assumes "join_room s mb (Some (b, u)) st = Inr (st', out)"
  shows "snapshot st' b = snapshot st b" and "active st' b"
  using join_room_unfold[OF assms]
  by (simp_all add: snapshot_put_room active_put_room)

lemma join_out:
  assumes "join_room s mb (Some (b, u)) st = Inr (st', out)"
  shows "out = (if truthy mb \<and> mb \<noteq> b then snd (leave_first s mb st) else [])
             @ [(s, RoomState (snapshot st b)
                    (map snd (filter (\<lambda>(sid', _). sid' \<noteq> s) (AList.update s u (members st b)))))]
             @ map (\<lambda>m. (m, UsersUpdate (map snd (AList.update s u (members st b)))))
                 (in_room b st')"
proof -
  have "map_of (rooms st') b = Some \<lparr>canvasJSON = snapshot st b, users = AList.update s u (members st b)\<rparr>"
    using join_room_unfold[OF assms] by (simp add: map_of_put_room)
  then have "broadcastUsers b st' = map (\<lambda>m. (m, UsersUpdate (map snd (AList.update s u (members st b)))))
                 (in_room b st')"
    by (simp add: broadcastUsers_def io_to_emit_def)
  then show ?thesis
    using join_room_unfold[OF assms] by simp
qed

lemma canvas_sync_None [simp]: "canvas_sync s None st = Inl TypeError"
  by (simp add: canvas_sync_def)

lemma canvas_sync_Some:
  "canvas_sync s (Some (b, cj)) st =
     Inr (put_room b \<lparr>canvasJSON = cj, users = members st b\<rparr> (fst (getRoom b st)),
          map (\<lambda>r. (r, CanvasSyncOut cj))
            (filter (\<lambda>r. r \<notin> set (in_room (own_room s) st)) (in_room b st)))"
proof -
  have eq: "(snd (getRoom b st))\<lparr>canvasJSON := cj\<rparr> = \<lparr>canvasJSON = cj, users = members st b\<rparr>"
    by (simp add: snd_getRoom members_def split: option.splits)
  show ?thesis
    unfolding canvas_sync_def by (simp add: case_prod_beta Let_def socket_to_emit_def eq)
qed

lemma cursor_move_None [simp]: "cursor_move s None st = Inl TypeError"
  by (simp add: cursor_move_def)


lemma disconnect_members:
  "members (fst (disconnect s mb st)) b' =
     (if truthy mb \<and> b' = mb then AList.delete s (members st mb) else members st b')"
  by (auto simp: disconnect_def Let_def members_put_room split: option.splits)
     (simp_all add: members_def)

lemma disconnect_joined [simp]: "joined (fst (disconnect s mb st)) = joined st"
  and disconnect_sockets [simp]: "sockets (fst (disconnect s mb st)) = sockets st"
  and disconnect_next_sid [simp]: "next_sid (fst (disconnect s mb st)) = next_sid st"
  by (simp_all add: disconnect_def Let_def split: option.splits)

lemma keys_delete: "fst ` set (AList.delete k al) = fst ` set al - {k}"
  by (induction al) auto

lemma keys_update: "fst ` set (AList.update k v al) = insert k (fst ` set al)"
  by (simp add: dom_update)

lemma consistent_init: "consistent init"
  by (simp add: consistent_def init_def members_def connected_def)

lemma consistentD:
  assumes "consistent st"
  shows  "(b, s) \<in> set (joined st) \<Longrightarrow> connected st s"
    and "(b, s) \<in> set (joined st) \<Longrightarrow> s \<in> fst ` set (members st b) \<or> b = own_room s"
    and "s \<in> fst ` set (members st b) \<Longrightarrow> connected st s \<Longrightarrow> (b, s) \<in> set (joined st)"
    and "connected st s \<Longrightarrow> s < next_sid st"
    and "s \<in> fst ` set (members st b) \<Longrightarrow> s < next_sid st"
    and "s \<in> fst ` set (members st b) \<Longrightarrow> connected st s \<Longrightarrow> truthy b \<Longrightarrow>
           map_of (sockets st) s = Some b"
  using assms unfolding consistent_def by meson+

lemma consistentI:
  assumes "\<And>b s. (b, s) \<in> set (joined st) \<Longrightarrow> connected st s"
    and "\<And>b s. (b, s) \<in> set (joined st) \<Longrightarrow> s \<in> fst ` set (members st b) \<or> b = own_room s"
    and "\<And>b s. s \<in> fst ` set (members st b) \<Longrightarrow> connected st s \<Longrightarrow> (b, s) \<in> set (joined st)"
    and "\<And>s. connected st s \<Longrightarrow> s < next_sid st"
    and "\<And>b s. s \<in> fst ` set (members st b) \<Longrightarrow> s < next_sid st"
    and "\<And>b s. s \<in> fst ` set (members st b) \<Longrightarrow> connected st s \<Longrightarrow> truthy b \<Longrightarrow>
           map_of (sockets st) s = Some b"
  shows "consistent st"
  unfolding consistent_def using assms by meson

lemma consistent_connect:
  assumes c: "consistent st"
  shows "consistent (st\<lparr>sockets := AList.update (next_sid st) Null (sockets st),
                         joined := joined st @ [(own_room (next_sid st), next_sid st)],
                         next_sid := Suc (next_sid st)\<rparr>)"
proof -
  define st' where "st' = st\<lparr>sockets := AList.update (next_sid st) Null (sockets st),
                         joined := joined st @ [(own_room (next_sid st), next_sid st)],
                         next_sid := Suc (next_sid st)\<rparr>"
  have m: "members st' = members st"
    by (rule ext) (simp add: members_def st'_def)
  have co: "connected st' s \<longleftrightarrow> s = next_sid st \<or> connected st s" for s
    by (simp add: connected_def update_conv' st'_def)
  have j: "(b, s) \<in> set (joined st') \<longleftrightarrow>
             (b, s) \<in> set (joined st) \<or> (b, s) = (own_room (next_sid st), next_sid st)" for b s
    by (auto simp: st'_def)
  have n: "next_sid st' = Suc (next_sid st)"
    by (simp add: st'_def)
  have so: "s \<noteq> next_sid st \<Longrightarrow> map_of (sockets st') s = map_of (sockets st) s" for s
    by (simp add: st'_def update_conv')
  have fresh: "next_sid st \<notin> fst ` set (members st b)" for b
    using consistentD(5)[OF c, of "next_sid st" b] by auto
  have "consistent st'"
  proof (rule consistentI)
    fix b s assume a: "(b, s) \<in> set (joined st')"
    show "connected st' s"
    proof (cases "(b, s) \<in> set (joined st)")
      case True
      from consistentD(1)[OF c this] show ?thesis by (simp add: co)
    next
      case False
      with a have "s = next_sid st" by (simp add: j)
      then show ?thesis by (simp add: co)
    qed
    show "s \<in> fst ` set (members st' b) \<or> b = own_room s"
    proof (cases "(b, s) \<in> set (joined st)")
      case True
      from consistentD(2)[OF c this] show ?thesis by (simp add: m)
    next
      case False
      with a have "b = own_room s" by (simp add: j)
      then show ?thesis by simp
    qed
  next
    fix b s assume a: "s \<in> fst ` set (members st' b)" "connected st' s"
    from a(1) have me: "s \<in> fst ` set (members st b)" by (simp add: m)
    with fresh have "s \<noteq> next_sid st" by blast
    with a(2) have "connected st s" by (simp add: co)
    from consistentD(3)[OF c me this] show "(b, s) \<in> set (joined st')"
      by (simp add: j)
  next
    fix s assume "connected st' s"
    then show "s < next_sid st'"
      using consistentD(4)[OF c, of s] by (auto simp: n co)
  next
    fix b s assume "s \<in> fst ` set (members st' b)"
    then show "s < next_sid st'"
      using consistentD(5)[OF c, of s b] by (auto simp: n m)
  next
    fix b s assume a: "s \<in> fst ` set (members st' b)" "connected st' s" "truthy b"
    from a(1) have me: "s \<in> fst ` set (members st b)" by (simp add: m)
    with fresh have ne: "s \<noteq> next_sid st" by blast
    with a(2) have "connected st s" by (simp add: co)
    from consistentD(6)[OF c me this a(3)] show "map_of (sockets st') s = Some b"
      by (simp add: so[OF ne])
  qed
  then show ?thesis by (simp add: st'_def)
qed

lemma consistent_rooms_only:
  assumes c: "consistent st" and "members st' = members st" "joined st' = joined st"
    "sockets st' = sockets st" "next_sid st' = next_sid st"
  shows "consistent st'"
  using c unfolding consistent_def connected_def assms(2-) .

lemma consistent_canvas_sync:
  assumes c: "consistent st" and "canvas_sync s (Some (b, cj)) st = Inr (st', out)"
  shows "consistent st'"
proof (rule consistent_rooms_only[OF c])
  show "members st' = members st"
    using assms(2) by (auto simp: canvas_sync_Some members_put_room)
qed (use assms(2) in \<open>auto simp: canvas_sync_Some\<close>)

lemma set_add_if_absent: "set (if p \<in> set j then j else j @ [p]) = insert p (set j)"
  by auto

lemma set_filter_neq: "set (filter (\<lambda>p. p \<noteq> q) xs) = set xs - {q}"
  by auto

lemma join_joined_set:
  assumes "join_room s mb (Some (b, u)) st = Inr (st', out)"
  shows "set (joined st') =
           insert (b, s) (if truthy mb \<and> mb \<noteq> b then set (joined st) - {(mb, s)} else set (joined st))"
  unfolding join_joined[OF assms] Let_def set_add_if_absent
  by (simp only: set_filter_neq if_distrib[of set] cong: if_cong)

lemma consistent_join_room:
  assumes c: "consistent st" and mb: "map_of (sockets st) s = Some mb"
    and j: "join_room s mb (Some (b, u)) st = Inr (st', out)"
  shows "consistent st'"
proof (rule consistentI)
  have co: "connected st' x \<longleftrightarrow> connected st x" for x
    using mb by (simp add: connected_def join_sockets[OF j] update_conv')
  have cs: "connected st s"
    using mb by (simp add: connected_def)
  note m = join_members[OF j]
  note js = join_joined_set[OF j]
  {
    fix b' x assume a: "(b', x) \<in> set (joined st')"
    show "connected st' x"
      using a consistentD(1)[OF c, of b' x] cs by (auto simp: js co split: if_splits)
    show "x \<in> fst ` set (members st' b') \<or> b' = own_room x"
    proof (cases "(b', x) = (b, s)")
      case True
      then show ?thesis by (simp add: m keys_update)
    next
      case False
      with a have old: "(b', x) \<in> set (joined st)" and ne: "truthy mb \<and> mb \<noteq> b \<Longrightarrow> (b', x) \<noteq> (mb, s)"
        by (auto simp: js split: if_splits)
      from consistentD(2)[OF c old] show ?thesis
      proof
        assume "x \<in> fst ` set (members st b')"
        with ne have "x \<in> fst ` set (members st' b')"
          by (auto simp: m keys_update keys_delete)
        then show ?thesis by simp
      next
        assume "b' = own_room x"
        then show ?thesis by simp
      qed
    qed
  }
  {
    fix b' x assume a: "x \<in> fst ` set (members st' b')" "connected st' x"
    show "(b', x) \<in> set (joined st')"
    proof (cases "(b', x) = (b, s)")
      case True
      then show ?thesis by (simp add: js)
    next
      case False
      have "x \<in> fst ` set (members st b')"
        using a(1) False by (auto simp: m keys_update keys_delete split: if_splits)
      then have old: "(b', x) \<in> set (joined st)"
        using consistentD(3)[OF c, of x b'] a(2) by (simp add: co)
      have "(b', x) \<noteq> (mb, s)" if "truthy mb" "mb \<noteq> b"
        using a(1) that by (auto simp: m keys_update keys_delete split: if_splits)
      with old show ?thesis
        by (auto simp: js)
    qed
  }
  {
    fix x assume "connected st' x"
    then show "x < next_sid st'"
      using consistentD(4)[OF c, of x] by (simp add: co join_next_sid[OF j])
  }
  {
    fix b' x assume "x \<in> fst ` set (members st' b')"
    then show "x < next_sid st'"
      using consistentD(5)[OF c, of x] consistentD(4)[OF c cs]
      by (auto simp: m keys_update keys_delete join_next_sid[OF j] split: if_splits)
  }
  {
    fix b' x assume a: "x \<in> fst ` set (members st' b')" "connected st' x" "truthy b'"
    show "map_of (sockets st') x = Some b'"
    proof (cases "x = s")
      case False
      then have "x \<in> fst ` set (members st b')"
        using a(1) by (auto simp: m keys_update keys_delete split: if_splits)
      from consistentD(6)[OF c this _ a(3)] a(2) False show ?thesis
        by (simp add: join_sockets[OF j] update_conv' co)
    next
      case True
      have "b' = b"
      proof (rule ccontr)
        assume nb: "b' \<noteq> b"
        show False
        proof (cases "truthy mb \<and> b' = mb")
          case True
          with a(1) nb \<open>x = s\<close> show False
            by (simp add: m keys_delete)
        next
          case False
          with a(1) nb \<open>x = s\<close> have "s \<in> fst ` set (members st b')"
            by (auto simp: m split: if_splits)
          from consistentD(6)[OF c this cs a(3)] mb have "b' = mb" by simp
          with False a(3) show False by simp
        qed
      qed
      with True show ?thesis
        by (simp add: join_sockets[OF j] update_conv')
    qed
  }
qed

lemma consistent_disconnect:
  assumes c: "consistent st" and mb: "map_of (sockets st) s = Some mb"
  shows "consistent (fst (disconnect s mb
            (st\<lparr>sockets := AList.delete s (sockets st),
                joined := filter (\<lambda>p. snd p \<noteq> s) (joined st)\<rparr>)))"
    (is "consistent ?st'")
proof (rule consistentI)
  have m0: "members (st\<lparr>sockets := AList.delete s (sockets st),
                joined := filter (\<lambda>p. snd p \<noteq> s) (joined st)\<rparr>) = members st"
    by (rule ext) (simp add: members_def)
  have m: "members ?st' b' = (if truthy mb \<and> b' = mb then AList.delete s (members st mb)
                               else members st b')" for b'
    by (simp add: disconnect_members m0)
  have js: "(b', x) \<in> set (joined ?st') \<longleftrightarrow> (b', x) \<in> set (joined st) \<and> x \<noteq> s" for b' x
    by auto
  have so: "map_of (sockets ?st') x = (if x = s then None else map_of (sockets st) x)" for x
    by (simp add: delete_conv')
  have co: "connected ?st' x \<longleftrightarrow> connected st x \<and> x \<noteq> s" for x
    by (auto simp: connected_def delete_conv')
  have n: "next_sid ?st' = next_sid st"
    by simp
  {
    fix b' x assume a: "(b', x) \<in> set (joined ?st')"
    then have old: "(b', x) \<in> set (joined st)" and ne: "x \<noteq> s"
      by auto
    show "connected ?st' x"
      using consistentD(1)[OF c old] ne by (simp only: co) simp
    show "x \<in> fst ` set (members ?st' b') \<or> b' = own_room x"
      using consistentD(2)[OF c old] ne by (simp only: m) (auto simp: keys_delete)
  }
  {
    fix b' x assume a: "x \<in> fst ` set (members ?st' b')" "connected ?st' x"
    from a(2) have cx: "connected st x" and ne: "x \<noteq> s"
      using co by blast+
    from a(1) have "x \<in> fst ` set (members st b')"
      by (simp only: m) (auto simp: keys_delete split: if_splits)
    from consistentD(3)[OF c this cx] ne show "(b', x) \<in> set (joined ?st')"
      by (simp only: js) simp
  }
  {
    fix x assume "connected ?st' x"
    then have "connected st x" by (simp only: co)
    from consistentD(4)[OF c this] show "x < next_sid ?st'"
      by (simp only: n)
  }
  {
    fix b' x assume "x \<in> fst ` set (members ?st' b')"
    then have "x \<in> fst ` set (members st b')"
      by (simp only: m) (auto simp: keys_delete split: if_splits)
    from consistentD(5)[OF c this] show "x < next_sid ?st'"
      by (simp only: n)
  }
  {
    fix b' x assume a: "x \<in> fst ` set (members ?st' b')" "connected ?st' x" "truthy b'"
    from a(2) have cx: "connected st x" and ne: "x \<noteq> s"
      using co by blast+
    from a(1) have "x \<in> fst ` set (members st b')"
      by (simp only: m) (auto simp: keys_delete split: if_splits)
    from consistentD(6)[OF c this cx a(3)] ne show "map_of (sockets ?st') x = Some b'"
      by (simp only: so) simp
  }
qed

lemma consistent_handle:
  assumes c: "consistent st" and h: "handle st ev = Inr (st', out)"
  shows "consistent st'"
proof (cases ev)
  case Connect
  with h consistent_connect[OF c] show ?thesis
    by (auto simp: handle_def)
next
  case (Inbound s msg)
  show ?thesis
  proof (cases "map_of (sockets st) s")
    case None
    with h Inbound c show ?thesis by (simp add: handle_def)
  next
    case (Some mb)
    show ?thesis
    proof (cases msg)
      case (JoinRoom payload)
      with h Inbound Some obtain b u where "payload = Some (b, u)"
        and "join_room s mb (Some (b, u)) st = Inr (st', out)"
        by (cases payload) (auto simp: handle_def)
      then show ?thesis
        using consistent_join_room[OF c Some] by blast
    next
      case (CanvasSync payload)
      with h Inbound Some obtain b cj where "payload = Some (b, cj)"
        and "canvas_sync s (Some (b, cj)) st = Inr (st', out)"
        by (cases payload) (auto simp: handle_def)
      then show ?thesis
        using consistent_canvas_sync[OF c] by blast
    next
      case (CursorMove payload)
      with h Inbound Some have "st' = st"
        by (cases payload) (auto simp: handle_def cursor_move_def)
      with c show ?thesis by simp
    next
      case (Ping f)
      with h Inbound Some have "st' = st"
        by (simp add: handle_def ping_def)
      with c show ?thesis by simp
    next
      case Disconnect
      with h Inbound Some have "st' = fst (disconnect s mb
            (st\<lparr>sockets := AList.delete s (sockets st),
                joined := filter (\<lambda>p. snd p \<noteq> s) (joined st)\<rparr>))"
        by (auto simp: handle_def)
      then show ?thesis
        using consistent_disconnect[OF c Some] by simp
    qed
  qed
qed

lemma run_consistent_from:
  "consistent st \<Longrightarrow> run st evs = Inr (st', out) \<Longrightarrow> consistent st'"
proof (induction evs arbitrary: st out)
  case Nil
  then show ?case by simp
next
  case (Cons ev evs)
  from Cons.prems(2) obtain st1 o1 o2 where h: "handle st ev = Inr (st1, o1)"
    and r: "run st1 evs = Inr (st', o2)"
    by (auto split: sum.splits prod.splits)
  from Cons.IH[OF consistent_handle[OF Cons.prems(1) h] r] show ?case .
qed

lemma run_consistent: "run init evs = Inr (st, out) \<Longrightarrow> consistent st"
  using run_consistent_from[OF consistent_init] .



lemma in_room_two_joined: "in_room (Str ''abc123'') two_joined = [0, 1]"
  by code_simp

lemma members_two_joined: "members two_joined (Str ''abc123'') = [(0, alice), (1, bob)]"
  by (simp add: members_def two_joined_def)

subsection \<open>Canvas updates\<close>

text \<open>
  What the canvas-sync handler does for a live connection \<open>c\<close>, in any state: the room of
  \<open>boardId\<close> exists afterwards and its snapshot is \<open>canvasJSON\<close>, whatever it was before; no
  members map changes; the event goes to the sockets of the channel room \<open>boardId\<close> that
  are not in the channel room named by the id of \<open>c\<close>.
\<close>

lemma canvas_sync_effect:
  assumes "connected st c"
  shows "\<exists>st'. handle st (Inbound c (CanvasSync (Some (boardId, cj))))
             = Inr (st', map (\<lambda>r. (r, CanvasSyncOut cj))
                     (filter (\<lambda>r. r \<notin> set (in_room (own_room c) st)) (in_room boardId st)))
     \<and> snapshot st' boardId = cj \<and> active st' boardId \<and> members st' = members st"
proof -
  from assms obtain mb where mb: "map_of (sockets st) c = Some mb"
    by (auto simp: connected_def)
  define st' where
    "st' = put_room boardId \<lparr>canvasJSON = cj, users = members st boardId\<rparr> (fst (getRoom boardId st))"
  have h: "handle st (Inbound c (CanvasSync (Some (boardId, cj))))
             = Inr (st', map (\<lambda>r. (r, CanvasSyncOut cj))
                     (filter (\<lambda>r. r \<notin> set (in_room (own_room c) st)) (in_room boardId st)))"
    by (simp add: handle_def mb canvas_sync_Some st'_def)
  have 1: "snapshot st' boardId = cj" "active st' boardId"
    by (simp_all add: st'_def snapshot_put_room active_put_room)
  have 2: "members st' = members st"
    by (rule ext) (simp add: st'_def members_put_room)
  show ?thesis
    using h 1 2 by blast
qed

text \<open>
  Where the sender is the only socket in the channel room named by its id, the event goes
  to every other member of the room that is a live connection, and not to the sender.
\<close>

lemma canvas_sync_shielded:
  assumes "run init evs = Inr (st, out0)" and "connected st c"
    and "in_room (own_room c) st = [c]"
    and "handle st (Inbound c (CanvasSync (Some (boardId, cj)))) = Inr (st', out)"
  shows "out = map (\<lambda>r. (r, CanvasSyncOut cj)) (filter (\<lambda>r. r \<noteq> c) (in_room boardId st))"
    and "m \<in> fst ` set (members st boardId) \<Longrightarrow> m \<noteq> c \<Longrightarrow> connected st m \<Longrightarrow>
           (m, CanvasSyncOut cj) \<in> set out"
    and "(c, e) \<notin> set out"
proof -
  from canvas_sync_effect[OF assms(2), of boardId cj] assms(4)
  show out: "out = map (\<lambda>r. (r, CanvasSyncOut cj)) (filter (\<lambda>r. r \<noteq> c) (in_room boardId st))"
    by (auto simp: assms(3))
  show "(m, CanvasSyncOut cj) \<in> set out"
    if "m \<in> fst ` set (members st boardId)" "m \<noteq> c" "connected st m"
  proof -
    have "(boardId, m) \<in> set (joined st)"
      using consistentD(3)[OF run_consistent[OF assms(1)] that(1,3)] .
    then have "m \<in> set (in_room boardId st)"
      by (simp add: in_room_iff)
    with that(2) show ?thesis
      by (simp add: out)
  qed
  show "(c, e) \<notin> set out"
    by (auto simp: out)
qed

lemma run_left_own_room:
  "run init left_own_room
     = Inr (alice_unshielded,
         [(0, RoomState Null []), (0, UsersUpdate [alice]),
          (0, RoomState Null []), (0, UsersUpdate [alice])])"
  by code_simp

lemma run_joined_foreign_id:
  "run init joined_foreign_id
     = Inr (bob_in_alices_room,
         [(1, RoomState Null []), (0, UsersUpdate [bob]), (1, UsersUpdate [bob])])"
  by code_simp

text \<open>
  C1. The relay stores the snapshot, but \<open>socket.to(boardId)\<close> does not forward to every
  other member and only to them: it leaves out the sockets of the channel room named by the
  sender's id. A connection that has joined the board named by its own id and then another
  board is no longer in that channel room (the join-room handler calls
  \<open>socket.leave(myBoardId)\<close>), and it receives its own canvas-sync back. A connection
  that has joined the board named by the sender's id is in that channel room, and it is a
  member of the board that receives nothing.
\<close>

theorem canvas_sync_echo_and_skip:
  "run init left_own_room
     = Inr (alice_unshielded,
         [(0, RoomState Null []), (0, UsersUpdate [alice]),
          (0, RoomState Null []), (0, UsersUpdate [alice])])
   \<and> handle alice_unshielded (Inbound 0 (CanvasSync (Some (Str ''abc123'', Str ''{shapes}''))))
       = Inr (alice_unshielded
                \<lparr>rooms := [(Str ''abc123'', \<lparr>canvasJSON = Str ''{shapes}'', users = [(0, alice)]\<rparr>)]\<rparr>,
              [(0, CanvasSyncOut (Str ''{shapes}''))])
   \<and> run init joined_foreign_id
       = Inr (bob_in_alices_room,
           [(1, RoomState Null []), (0, UsersUpdate [bob]), (1, UsersUpdate [bob])])
   \<and> members bob_in_alices_room (own_room 0) = [(1, bob)]
   \<and> handle bob_in_alices_room (Inbound 0 (CanvasSync (Some (own_room 0, Str ''{shapes}''))))
       = Inr (bob_in_alices_room
                \<lparr>rooms := [(own_room 0, \<lparr>canvasJSON = Str ''{shapes}'', users = [(1, bob)]\<rparr>)]\<rparr>,
              [])"
  by code_simp

subsection \<open>Joining a room\<close>



subsection \<open>The snapshot a joiner receives\<close>

lemma snapshot_cong: "rooms st' = rooms st \<Longrightarrow> snapshot st' = snapshot st"
  and active_cong: "rooms st' = rooms st \<Longrightarrow> active st' = active st"
  by (rule ext, simp add: snapshot_def active_def)+

lemma snapshot_inactive: "\<not> active st b \<Longrightarrow> snapshot st b = Null"
  by (simp add: snapshot_def active_def)

lemma leave_first_keeps_snapshot:
  "active (fst (leave_first s mb st)) b \<Longrightarrow> snapshot (fst (leave_first s mb st)) b = snapshot st b"
  by (auto simp: leave_first_def Let_def socket_leave_def snapshot_def active_def map_of_put_room
        map_of_cleanEmptyRoom split: option.splits if_splits)

lemma leave_first_no_create:
  "active (fst (leave_first s mb st)) b \<Longrightarrow> active st b"
  by (auto simp: leave_first_def Let_def socket_leave_def active_def map_of_put_room
        map_of_cleanEmptyRoom split: option.splits if_splits)

lemma disconnect_keeps_snapshot:
  "active (fst (disconnect s mb st)) b \<Longrightarrow> snapshot (fst (disconnect s mb st)) b = snapshot st b"
  by (auto simp: disconnect_def Let_def snapshot_def active_def map_of_put_room
        map_of_cleanEmptyRoom split: option.splits if_splits)

lemma disconnect_no_create:
  "active (fst (disconnect s mb st)) b \<Longrightarrow> active st b"
  by (auto simp: disconnect_def Let_def active_def map_of_put_room
        map_of_cleanEmptyRoom split: option.splits if_splits)

lemma join_keeps_snapshot:
  assumes j: "join_room s mb (Some (b, u)) st = Inr (st', out)" and a: "active st' b'"
  shows "snapshot st' b' = snapshot st b'"
proof (cases "b' = b")
  case True
  then show ?thesis using join_snapshot(1)[OF j] by simp
next
  case False
  define st1 where "st1 = after_leave s mb b st"
  have r: "rooms (socket_join s b (st1\<lparr>sockets := AList.update s b (sockets st1)\<rparr>)) = rooms st1"
    by (simp add: socket_join_def)
  have 1: "snapshot st' b' = snapshot st1 b'" and 2: "active st' b' = active st1 b'"
    using join_room_unfold[OF j] False
    by (simp_all add: snapshot_put_room active_put_room join_room_pre_def active_getRoom
        snapshot_cong[OF r] active_cong[OF r] st1_def[symmetric])
  from a 2 have "active st1 b'" by simp
  then have "snapshot st1 b' = snapshot st b'"
    using leave_first_keeps_snapshot[of s mb st b']
    by (auto simp: st1_def after_leave_def split: if_splits)
  with 1 show ?thesis by simp
qed

lemma join_no_create:
  assumes j: "join_room s mb (Some (b, u)) st = Inr (st', out)" and a: "active st' b'" "b' \<noteq> b"
  shows "active st b'"
proof -
  define st1 where "st1 = after_leave s mb b st"
  have r: "rooms (socket_join s b (st1\<lparr>sockets := AList.update s b (sockets st1)\<rparr>)) = rooms st1"
    by (simp add: socket_join_def)
  have "active st' b' = active st1 b'"
    using join_room_unfold[OF j] a(2)
    by (simp_all add: active_put_room join_room_pre_def active_getRoom
        active_cong[OF r] st1_def[symmetric])
  with a(1) show ?thesis
    using leave_first_no_create[of s mb st b']
    by (auto simp: st1_def after_leave_def split: if_splits)
qed

lemma canvas_sync_snapshot:
  assumes "canvas_sync s (Some (b, cj)) st = Inr (st', out)"
  shows "snapshot st' b' = (if b' = b then cj else snapshot st b')"
    and "active st' b' = (b' = b \<or> active st b')"
  using assms by (auto simp: canvas_sync_Some snapshot_put_room active_put_room active_getRoom)

lemma handle_cases:
  assumes "handle st ev = Inr (st', out)"
  obtains (connect) "ev = Connect"
      "st' = st\<lparr>sockets := AList.update (next_sid st) Null (sockets st),
                  joined := joined st @ [(own_room (next_sid st), next_sid st)],
                  next_sid := Suc (next_sid st)\<rparr>"
      "out = []"
  | (ignored) s msg where "ev = Inbound s msg" "map_of (sockets st) s = None" "st' = st" "out = []"
  | (join) s mb b u where "ev = Inbound s (JoinRoom (Some (b, u)))" "map_of (sockets st) s = Some mb"
      "join_room s mb (Some (b, u)) st = Inr (st', out)"
  | (sync) s mb b cj where "ev = Inbound s (CanvasSync (Some (b, cj)))" "map_of (sockets st) s = Some mb"
      "canvas_sync s (Some (b, cj)) st = Inr (st', out)"
  | (cursor) s mb p where "ev = Inbound s (CursorMove (Some p))" "map_of (sockets st) s = Some mb"
      "st' = st"
  | (ping) s mb f where "ev = Inbound s (Ping f)" "map_of (sockets st) s = Some mb" "st' = st"
  | (disconnect) s mb where "ev = Inbound s Disconnect" "map_of (sockets st) s = Some mb"
      "st' = fst (disconnect s mb (st\<lparr>sockets := AList.delete s (sockets st),
                joined := filter (\<lambda>p. snd p \<noteq> s) (joined st)\<rparr>))"
proof (cases ev)
  case Connect
  with assms have "st' = st\<lparr>sockets := AList.update (next_sid st) Null (sockets st),
                  joined := joined st @ [(own_room (next_sid st), next_sid st)],
                  next_sid := Suc (next_sid st)\<rparr>"
    and "out = []"
    by (simp_all add: handle_def)
  with Connect show ?thesis by (rule connect)
next
  case (Inbound s msg)
  show ?thesis
  proof (cases "map_of (sockets st) s")
    case None
    with assms Inbound have "st' = st" "out = []"
      by (simp_all add: handle_def)
    with Inbound None show ?thesis by (rule ignored)
  next
    case (Some mb)
    show ?thesis
    proof (cases msg)
      case (JoinRoom payload)
      with assms Inbound Some obtain b u where "payload = Some (b, u)"
        and "join_room s mb (Some (b, u)) st = Inr (st', out)"
        by (cases payload) (auto simp: handle_def)
      with Inbound JoinRoom Some show ?thesis
        using join by blast
    next
      case (CanvasSync payload)
      with assms Inbound Some obtain b cj where "payload = Some (b, cj)"
        and "canvas_sync s (Some (b, cj)) st = Inr (st', out)"
        by (cases payload) (auto simp: handle_def)
      with Inbound CanvasSync Some show ?thesis
        using sync by blast
    next
      case (CursorMove payload)
      with assms Inbound Some obtain p where "payload = Some p" and "st' = st"
        by (cases payload) (auto simp: handle_def cursor_move_def)
      with Inbound CursorMove Some show ?thesis
        using cursor by blast
    next
      case (Ping f)
      with assms Inbound Some have "st' = st"
        by (simp add: handle_def ping_def)
      with Inbound Ping Some show ?thesis
        using ping by blast
    next
      case Disconnect
      with assms Inbound Some have "st' = fst (disconnect s mb (st\<lparr>sockets := AList.delete s (sockets st),
                joined := filter (\<lambda>p. snd p \<noteq> s) (joined st)\<rparr>))"
        by (simp add: handle_def)
      with Inbound Disconnect Some show ?thesis
        using disconnect by blast
    qed
  qed
qed

lemma handle_keeps_snapshot:
  assumes h: "handle st ev = Inr (st', out)" and n: "\<And>cj. sync_payload st ev \<noteq> Some (B, cj)"
    and a: "active st' B"
  shows "snapshot st' B = snapshot st B"
  using h
proof (cases rule: handle_cases)
  case connect
  then show ?thesis by (simp add: snapshot_def)
next
  case (join s mb b u)
  then show ?thesis using join_keeps_snapshot a by blast
next
  case (sync s mb b cj)
  with n[of cj] have "b \<noteq> B" by (auto simp: sync_payload_def connected_def)
  with sync show ?thesis by (simp add: canvas_sync_snapshot)
next
  case (disconnect s mb)
  have r: "rooms (st\<lparr>sockets := AList.delete s (sockets st),
                joined := filter (\<lambda>p. snd p \<noteq> s) (joined st)\<rparr>) = rooms st"
    by simp
  from disconnect a have "snapshot st' B = snapshot (st\<lparr>sockets := AList.delete s (sockets st),
                joined := filter (\<lambda>p. snd p \<noteq> s) (joined st)\<rparr>) B"
    using disconnect_keeps_snapshot by blast
  then show ?thesis
    by (simp add: snapshot_cong[OF r])
qed simp_all

lemma handle_sync_snapshot:
  assumes h: "handle st ev = Inr (st', out)" and n: "sync_payload st ev = Some (B, cj)"
  shows "snapshot st' B = cj" "active st' B"
proof -
  from n obtain s where ev: "ev = Inbound s (CanvasSync (Some (B, cj)))" and "connected st s"
    by (auto simp: sync_payload_def split: event.splits inbound.splits option.splits if_splits)
  then obtain mb where "map_of (sockets st) s = Some mb"
    by (auto simp: connected_def)
  with h ev have "canvas_sync s (Some (B, cj)) st = Inr (st', out)"
    by (simp add: handle_def)
  then show "snapshot st' B = cj" "active st' B"
    by (simp_all add: canvas_sync_snapshot)
qed

lemma handle_no_create:
  assumes h: "handle st ev = Inr (st', out)" and n: "\<not> names_board B ev"
    and a: "active st' B"
  shows "active st B"
  using h
proof (cases rule: handle_cases)
  case connect
  with a show ?thesis by (simp add: active_def)
next
  case (join s mb b u)
  with n have "B \<noteq> b" by auto
  with join a show ?thesis using join_no_create by blast
next
  case (sync s mb b cj)
  with n have "B \<noteq> b" by auto
  with sync a show ?thesis by (simp add: canvas_sync_snapshot)
next
  case (disconnect s mb)
  have r: "rooms (st\<lparr>sockets := AList.delete s (sockets st),
                joined := filter (\<lambda>p. snd p \<noteq> s) (joined st)\<rparr>) = rooms st"
    by simp
  from disconnect a have "active (st\<lparr>sockets := AList.delete s (sockets st),
                joined := filter (\<lambda>p. snd p \<noteq> s) (joined st)\<rparr>) B"
    using disconnect_no_create by blast
  then show ?thesis
    by (simp add: active_cong[OF r])
qed (use a in simp_all)

lemma latest_sync_tracks:
  assumes "run st evs = Inr (st', out)"
    and "snapshot st B = (case l of None \<Rightarrow> Null | Some cj \<Rightarrow> cj)"
  shows "snapshot st' B = (case latest_sync B st evs l of None \<Rightarrow> Null | Some cj \<Rightarrow> cj)"
  using assms
proof (induction evs arbitrary: st l out)
  case Nil
  then show ?case by simp
next
  case (Cons ev evs)
  from Cons.prems(1) obtain st1 o1 o2 where h: "handle st ev = Inr (st1, o1)"
    and r: "run st1 evs = Inr (st', o2)"
    by (auto split: sum.splits prod.splits)
  define l1 where "l1 = (if \<not> active st1 B then None
             else case sync_payload st ev of
                    None \<Rightarrow> l
                  | Some (b, cj) \<Rightarrow> if b = B then Some cj else l)"
  have "snapshot st1 B = (case l1 of None \<Rightarrow> Null | Some cj \<Rightarrow> cj)"
  proof (cases "active st1 B")
    case False
    then show ?thesis by (simp add: l1_def snapshot_inactive)
  next
    case True
    show ?thesis
    proof (cases "\<exists>cj. sync_payload st ev = Some (B, cj)")
      case True
      then obtain cj where p: "sync_payload st ev = Some (B, cj)" by blast
      from handle_sync_snapshot[OF h p] show ?thesis
        by (simp add: l1_def p)
    next
      case False
      then have "snapshot st1 B = snapshot st B"
        using handle_keeps_snapshot[OF h _ True] by blast
      moreover from False True have "l1 = l"
        by (auto simp: l1_def split: option.splits)
      ultimately show ?thesis
        using Cons.prems(2) by simp
    qed
  qed
  from Cons.IH[OF r this] show ?case
    by (simp add: h l1_def)
qed

lemma received_snapshots_append:
  "received_snapshots j (xs @ ys) = received_snapshots j xs @ received_snapshots j ys"
  by (simp add: received_snapshots_def map_filter_def)

lemma received_snapshots_users_update [simp]:
  "received_snapshots j (map (\<lambda>m. (m, UsersUpdate us)) ms) = []"
  by (induction ms) (simp_all add: received_snapshots_def map_filter_def)

lemma received_snapshots_leave_first [simp]:
  "received_snapshots j (snd (leave_first s mb st)) = []"
  by (simp add: leave_first_out) (simp add: received_snapshots_def map_filter_def)

lemma join_received_snapshots:
  assumes "join_room s mb (Some (b, u)) st = Inr (st', out)"
  shows "received_snapshots s out = [snapshot st b]"
  unfolding join_out[OF assms] received_snapshots_append
  by simp (simp add: received_snapshots_def map_filter_def)

lemma run_two_syncs:
  "run init two_syncs = Inr (synced_twice, [(0, RoomState Null []), (0, UsersUpdate [alice])])"
  by code_simp

lemma latest_two_syncs: "latest_sync (Str ''abc123'') init two_syncs None = Some (Str ''{v2}'')"
  by code_simp

text \<open>
  C3. After any run of the relay from its start, a live connection that joins board \<open>B\<close>
  receives exactly one room-state event, and its \<open>canvasJSON\<close> is the payload of the most
  recent canvas-sync event processed on \<open>B\<close> since the room of \<open>B\<close> was created, or
  \<open>null\<close> when there was none.
\<close>

theorem snapshot_correctness:
  assumes "run init evs = Inr (st, out)" and "connected st j"
  shows "\<exists>st' out'. handle st (Inbound j (JoinRoom (Some (B, u)))) = Inr (st', out')
     \<and> received_snapshots j out'
         = [case latest_sync B init evs None of None \<Rightarrow> Null | Some cj \<Rightarrow> cj]"
proof -
  from assms(2) obtain mb where mb: "map_of (sockets st) j = Some mb"
    by (auto simp: connected_def)
  obtain st' out' where jr: "join_room j mb (Some (B, u)) st = Inr (st', out')"
    by (auto simp: join_room_def Let_def case_prod_beta)
  then have h: "handle st (Inbound j (JoinRoom (Some (B, u)))) = Inr (st', out')"
    by (simp add: handle_def mb)
  have "snapshot init B = (case None of None \<Rightarrow> Null | Some cj \<Rightarrow> cj)"
    by (simp add: snapshot_def init_def)
  from latest_sync_tracks[OF assms(1) this] join_received_snapshots[OF jr] h
  show ?thesis by simp
qed

theorem snapshot_correctness_witness:
  "run init two_syncs = Inr (synced_twice, [(0, RoomState Null []), (0, UsersUpdate [alice])])
   \<and> connected synced_twice 1
   \<and> (\<exists>st' out'. handle synced_twice (Inbound 1 (JoinRoom (Some (Str ''abc123'', bob)))) = Inr (st', out')
        \<and> received_snapshots 1 out' = [Str ''{v2}''])"
proof -
  have c: "connected synced_twice 1"
    by (simp add: connected_def synced_twice_def)
  have "\<exists>st' out'. handle synced_twice (Inbound 1 (JoinRoom (Some (Str ''abc123'', bob)))) = Inr (st', out')
        \<and> received_snapshots 1 out' = [Str ''{v2}'']"
    using snapshot_correctness[OF run_two_syncs c, of "Str ''abc123''" bob]
    by (simp only: latest_two_syncs option.simps)
  with run_two_syncs c show ?thesis
    by blast
qed

subsection \<open>Rooms and their members\<close>



lemma disconnect_nonempty:
  "truthy mb \<Longrightarrow> active (fst (disconnect s mb st)) mb \<Longrightarrow>
     members (fst (disconnect s mb st)) mb \<noteq> []"
  by (auto simp: disconnect_def Let_def active_def members_def map_of_put_room
        map_of_cleanEmptyRoom split: option.splits if_splits)







subsection \<open>Data events for a board without a room\<close>









text \<open>
  Where the board identifier is the id of the socket of a live connection, that socket is
  in the channel room of that name, and a cursor-move naming the board reaches it although
  the registry has no such room.
\<close>

lemma cursor_move_to_socket_id:
  "run init [Connect, Connect] =
     Inr (\<lparr>rooms = [], sockets = [(0, Null), (1, Null)],
            joined = [(own_room 0, 0), (own_room 1, 1)], next_sid = 2\<rparr>, [])
   \<and> handle \<lparr>rooms = [], sockets = [(0, Null), (1, Null)],
             joined = [(own_room 0, 0), (own_room 1, 1)], next_sid = 2\<rparr>
         (Inbound 1 (CursorMove (Some (own_room 0, Str ''u2'', Num 3, Num 4))))
       = Inr (\<lparr>rooms = [], sockets = [(0, Null), (1, Null)],
                joined = [(own_room 0, 0), (own_room 1, 1)], next_sid = 2\<rparr>,
              [(0, CursorMoveOut (Str ''u2'') (Num 3) (Num 4))])"
  by code_simp

subsection \<open>Cleaning up an empty room\<close>

lemma run_alice_alone:
  "run init join_and_sync
     = Inr (alice_alone, [(0, RoomState Null []), (0, UsersUpdate [alice])])"
  by code_simp

lemma run_no_create:
  assumes "run st evs = Inr (st', out)" and "\<forall>ev \<in> set evs. \<not> names_board B ev"
    and "\<not> active st B"
  shows "\<not> active st' B"
  using assms
proof (induction evs arbitrary: st out)
  case Nil
  then show ?case by simp
next
  case (Cons ev evs)
  from Cons.prems(1) obtain st1 o1 o2 where h: "handle st ev = Inr (st1, o1)"
    and r: "run st1 evs = Inr (st', o2)"
    by (auto split: sum.splits prod.splits)
  from Cons.prems(2) have n: "\<not> names_board B ev" "\<forall>ev \<in> set evs. \<not> names_board B ev"
    by simp_all
  have "\<not> active st1 B"
    using handle_no_create[OF h n(1)] Cons.prems(3) by blast
  from Cons.IH[OF r n(2) this] show ?case .
qed

lemma disconnect_last_member:
  assumes "truthy mb" and "members st mb = [(s, u)]"
  shows "\<not> active (fst (disconnect s mb st)) mb"
proof
  assume "active (fst (disconnect s mb st)) mb"
  from disconnect_nonempty[OF assms(1) this] show False
    by (simp add: disconnect_members assms)
qed

text \<open>
  C6, as stated, fails: after the last member has disconnected and the room is gone, a
  canvas-sync event naming the board recreates the room with its payload, and the next
  joiner receives that payload, not \<open>null\<close>.
\<close>

theorem empty_room_cleanup_counterexample:
  "run init [Connect, Inbound 0 (JoinRoom (Some (Str ''abc123'', alice))),
             Inbound 0 (CanvasSync (Some (Str ''abc123'', Str ''{v1}''))),
             Inbound 0 Disconnect]
     = Inr (emptied, [(0, RoomState Null []), (0, UsersUpdate [alice])])
   \<and> \<not> active emptied (Str ''abc123'')
   \<and> run emptied [Connect, Inbound 1 (CanvasSync (Some (Str ''abc123'', Str ''{v2}''))),
                  Inbound 1 (JoinRoom (Some (Str ''abc123'', bob)))]
     = Inr (resynced, [(1, RoomState (Str ''{v2}'') []), (1, UsersUpdate [bob])])"
  by code_simp

text \<open>
  C6, amended. In every state that the relay reaches by a run from its start: when the
  only member of the room of a board with a truthy identifier (a non-empty string) is a
  live connection and disconnects, the board leaves the registry; it stays out of the
  registry through every sequence of events that contains no join-room and no canvas-sync
  naming that board; and a live connection that then joins the board receives a room-state
  with a \<open>null\<close> snapshot and becomes the only member of the recreated room.
\<close>

theorem empty_room_cleanup:
  assumes "run init evs0 = Inr (st, out0)" and "connected st c" and "truthy B"
    and "members st B = [(c, u)]"
    and "handle st (Inbound c Disconnect) = Inr (st1, out1)"
    and "run st1 evs = Inr (st2, out2)" and "\<forall>ev \<in> set evs. \<not> names_board B ev"
    and "connected st2 j"
  shows "\<not> active st1 B \<and> \<not> active st2 B
     \<and> (\<exists>st3 out3. handle st2 (Inbound j (JoinRoom (Some (B, v)))) = Inr (st3, out3)
          \<and> received_snapshots j out3 = [Null] \<and> members st3 B = [(j, v)])"
proof -
  note cs = run_consistent[OF assms(1)]
  have "c \<in> fst ` set (members st B)"
    by (simp add: assms(4))
  from consistentD(6)[OF cs this assms(2,3)] have mb: "map_of (sockets st) c = Some B" .
  define st0 where "st0 = st\<lparr>sockets := AList.delete c (sockets st),
                joined := filter (\<lambda>p. snd p \<noteq> c) (joined st)\<rparr>"
  have m0: "members st0 B = [(c, u)]"
    using assms(4) by (simp add: members_def st0_def)
  have "st1 = fst (disconnect c B st0)"
    using assms(5) by (simp add: handle_def mb st0_def)
  with disconnect_last_member[OF assms(3) m0] have 1: "\<not> active st1 B"
    by simp
  from run_no_create[OF assms(6,7) 1] have 2: "\<not> active st2 B" .
  from assms(8) obtain mj where mj: "map_of (sockets st2) j = Some mj"
    by (auto simp: connected_def)
  obtain st3 out3 where jr: "join_room j mj (Some (B, v)) st2 = Inr (st3, out3)"
    by (auto simp: join_room_def Let_def case_prod_beta)
  then have h: "handle st2 (Inbound j (JoinRoom (Some (B, v)))) = Inr (st3, out3)"
    by (simp add: handle_def mj)
  have "members st2 B = []"
    using 2 by (simp add: members_def active_def)
  then have 3: "members st3 B = [(j, v)]"
    by (simp add: join_members[OF jr])
  have 4: "received_snapshots j out3 = [Null]"
    using join_received_snapshots[OF jr] 2 by (simp add: snapshot_inactive)
  show ?thesis
    using 1 2 h 3 4 by blast
qed

theorem empty_room_cleanup_witness:
  "run init join_and_sync = Inr (alice_alone, [(0, RoomState Null []), (0, UsersUpdate [alice])])
   \<and> connected alice_alone 0 \<and> truthy (Str ''abc123'')
   \<and> members alice_alone (Str ''abc123'') = [(0, alice)]
   \<and> handle alice_alone (Inbound 0 Disconnect) = Inr (emptied, [])
   \<and> run emptied [Connect, Inbound 1 (CursorMove (Some (Str ''abc123'', Str ''u2'', Num 3, Num 4)))]
       = Inr (second_connected, [])
   \<and> connected second_connected 1
   \<and> \<not> active emptied (Str ''abc123'')
   \<and> (\<exists>st3 out3.
         handle second_connected (Inbound 1 (JoinRoom (Some (Str ''abc123'', bob)))) = Inr (st3, out3)
         \<and> received_snapshots 1 out3 = [Null] \<and> members st3 (Str ''abc123'') = [(1, bob)])"
proof -
  have c: "connected alice_alone 0"
    by (simp add: connected_def alice_alone_def)
  have t: "truthy (Str ''abc123'')"
    by simp
  have m: "members alice_alone (Str ''abc123'') = [(0, alice)]"
    by (simp add: members_def alice_alone_def)
  have d: "handle alice_alone (Inbound 0 Disconnect) = Inr (emptied, [])"
    by code_simp
  have r: "run emptied [Connect, Inbound 1 (CursorMove (Some (Str ''abc123'', Str ''u2'', Num 3, Num 4)))]
       = Inr (second_connected, [])"
    by code_simp
  have n: "\<forall>ev \<in> set [Connect, Inbound 1 (CursorMove (Some (Str ''abc123'', Str ''u2'', Num 3, Num 4)))].
             \<not> names_board (Str ''abc123'') ev"
    by simp
  have j: "connected second_connected 1"
    by (simp add: connected_def second_connected_def)
  from empty_room_cleanup[OF run_alice_alone c t m d r n j, of bob]
  show ?thesis
    using run_alice_alone c t m d r j by blast
qed


text \<open>
  The disconnect handler tests \<open>!myBoardId\<close>: a connection whose board identifier is the empty
  string is treated as one that never joined, and its member entry and room stay.
\<close>

lemma disconnect_empty_board_id:
  "run init [Connect, Inbound 0 (JoinRoom (Some (Str [], alice))), Inbound 0 Disconnect]
     = Inr (\<lparr>rooms = [(Str [], \<lparr>canvasJSON = Null, users = [(0, alice)]\<rparr>)],
              sockets = [], joined = [], next_sid = 1\<rparr>,
            [(0, RoomState Null []), (0, UsersUpdate [alice])])"
  by code_simp

subsection \<open>A duplicate join\<close>






subsection \<open>Malformed payloads\<close>

text \<open>
  C9. The handlers destructure the payload without checking it. An event without a payload
  makes join-room, canvas-sync and cursor-move throw a \<open>TypeError\<close> that nothing catches; a
  payload object without its fields is processed with \<open>undefined\<close> in their place, so that
  canvas-sync creates a room under the key \<open>undefined\<close> and join-room adds a member to it.
  Only the ping handler checks its argument.
\<close>

theorem malformed_payload_not_dropped:
  "handle one_connected (Inbound 0 (JoinRoom None)) = Inl TypeError
   \<and> handle one_connected (Inbound 0 (CanvasSync None)) = Inl TypeError
   \<and> handle one_connected (Inbound 0 (CursorMove None)) = Inl TypeError
   \<and> handle one_connected (Inbound 0 (Ping False)) = Inr (one_connected, [])
   \<and> handle one_connected (Inbound 0 (CanvasSync (Some (Undefined, Undefined))))
       = Inr (\<lparr>rooms = [(Undefined, \<lparr>canvasJSON = Undefined, users = []\<rparr>)],
                sockets = [(0, Null)], joined = [(own_room 0, 0)], next_sid = 1\<rparr>, [])
   \<and> handle one_connected
         (Inbound 0 (JoinRoom (Some (Undefined,
            \<lparr>userId = Undefined, userName = Undefined, color = Undefined\<rparr>))))
       = Inr (\<lparr>rooms = [(Undefined, \<lparr>canvasJSON = Null,
                   users = [(0, \<lparr>userId = Undefined, userName = Undefined, color = Undefined\<rparr>)]\<rparr>)],
                sockets = [(0, Undefined)], joined = [(own_room 0, 0), (Undefined, 0)], next_sid = 1\<rparr>,
              [(0, RoomState Null []),
               (0, UsersUpdate [\<lparr>userId = Undefined, userName = Undefined, color = Undefined\<rparr>])])"
  by code_simp

section \<open>Properties of the board store\<close>

lemma apply_op_distinct:
  assumes "distinct (map user_id (activeUsers s))"
  shows "distinct (map user_id (activeUsers (apply_op op s)))"
proof (cases op)
  case (AddUser usr)
  then show ?thesis
    using assms by (auto simp: addUser_def distinct_map_filter)
next
  case (RemoveUser uid)
  then show ?thesis
    using assms by (simp add: removeUser_def distinct_map_filter)
next
  case (UpdateUserCursor uid x y)
  have e: "user_id \<circ> (\<lambda>u. if user_id u = uid then u\<lparr>user_cursor := (x, y)\<rparr> else u) = user_id"
    by (rule ext) simp
  from UpdateUserCursor assms show ?thesis
    by (simp add: updateUserCursor_def e)
qed

lemma fold_apply_op_distinct:
  "distinct (map user_id (activeUsers s)) \<Longrightarrow>
     distinct (map user_id (activeUsers (fold apply_op ops s)))"
  by (induction ops arbitrary: s) (simp_all add: apply_op_distinct)

text \<open>
  C10. After any sequence of \<open>addUser\<close>, \<open>removeUser\<close> and \<open>updateUserCursor\<close> calls on the
  initial store, no two entries of \<open>activeUsers\<close> have the same id. A further \<open>addUser\<close>
  leaves exactly one entry with the id of the added user, namely the added user, and leaves
  the entries with other ids as they were, in their order.
\<close>

theorem active_users_unique:
  "distinct (map user_id (activeUsers (run_ops ops)))
   \<and> filter (\<lambda>v. user_id v = user_id usr) (activeUsers (addUser usr (run_ops ops))) = [usr]
   \<and> filter (\<lambda>v. user_id v \<noteq> user_id usr) (activeUsers (addUser usr (run_ops ops)))
       = filter (\<lambda>v. user_id v \<noteq> user_id usr) (activeUsers (run_ops ops))
   \<and> distinct (map user_id (activeUsers (addUser usr (run_ops ops))))"
proof -
  have d: "distinct (map user_id (activeUsers (run_ops ops)))"
    unfolding run_ops_def by (rule fold_apply_op_distinct) (simp add: initial_store_def)
  have "distinct (map user_id (activeUsers (apply_op (AddUser usr) (run_ops ops))))"
    using d by (rule apply_op_distinct)
  then show ?thesis
    using d by (simp add: addUser_def)
qed

section \<open>Properties of the debounced canvas-sync\<close>















end
